theory Spec2Isabelle
  imports Main "HOL-Library.Sublist"
begin

section \<open>Strings, characters and exceptions\<close>

text \<open>
  A Python \<^verbatim>\<open>str\<close> is a sequence of code points. Here a string is a \<^typ>\<open>char list\<close>
  and a \<^typ>\<open>char\<close> stands for one code point in the range U+0000 .. U+00FF, read with
  \<^const>\<open>of_char\<close>; \<^term>\<open>length\<close> therefore counts what \<^verbatim>\<open>len\<close> counts.
  The exceptions of the program are values of the type \<open>error\<close>; a function that can
  raise returns \<open>error + 'a\<close>.
\<close>

datatype error =
    ValueError string
  | KeyError
  | IndexError
  | AttributeError string

definition ord :: "char \<Rightarrow> nat" where
  "ord c = of_char c"

text \<open>
  \<^verbatim>\<open>str.isdigit\<close>: true when the string is not empty and every character has the Unicode
  property Numeric_Type=Digit or Numeric_Type=Decimal. Below U+0100 these are the ASCII
  digits U+0030 .. U+0039 and the superscripts U+00B2, U+00B3 and U+00B9.
\<close>

definition char_isdigit :: "char \<Rightarrow> bool" where
  "char_isdigit c = ((48 \<le> ord c \<and> ord c \<le> 57) \<or> ord c = 178 \<or> ord c = 179 \<or> ord c = 185)"

definition isdigit :: "string \<Rightarrow> bool" where
  "isdigit s = (s \<noteq> [] \<and> list_all char_isdigit s)"

text \<open>The decimal digits \<^verbatim>\<open>0\<close> .. \<^verbatim>\<open>9\<close>, which is also what \<^verbatim>\<open>\d\<close> matches below U+0100.\<close>

definition is_decimal_digit :: "char \<Rightarrow> bool" where
  "is_decimal_digit c = (48 \<le> ord c \<and> ord c \<le> 57)"

section \<open>Field, Name, Phone\<close>

text \<open>
  A \<^verbatim>\<open>Field\<close> object holds one attribute \<^verbatim>\<open>value\<close>; a \<^verbatim>\<open>Name\<close> or \<^verbatim>\<open>Phone\<close> object is
  represented by that value, and \<^verbatim>\<open>Field.__str__\<close> renders it with \<^verbatim>\<open>str\<close>.
\<close>

definition Field_str :: "string \<Rightarrow> string" where
  "Field_str v = v"

definition Name :: "string \<Rightarrow> error + string" where
  "Name v = (if v = [] then Inl (ValueError ''Name is a mandatory field'') else Inr v)"

definition is_valid :: "string \<Rightarrow> bool" where
  "is_valid phone = (length phone = 10 \<and> isdigit phone)"

definition Phone :: "string \<Rightarrow> error + string" where
  "Phone v = (if \<not> is_valid v then Inl (ValueError ''Phone number must be 10 digits'') else Inr v)"

section \<open>Dates of the standard library\<close>

text \<open>
  \<^verbatim>\<open>datetime.date\<close>: an immutable triple of year, month and day. The constructor checks
  the fields (\<^verbatim>\<open>_check_date_fields\<close>) and raises \<^verbatim>\<open>ValueError\<close> otherwise; the helper
  functions are those of the library's \<^verbatim>\<open>datetime.py\<close>.
\<close>

record date =
  year :: int
  month :: int
  day :: int

text \<open>\<^verbatim>\<open>str\<close> of an integer: its decimal numeral.\<close>

fun str_nat :: "nat \<Rightarrow> string" where
  "str_nat n = (if n < 10 then [char_of (48 + n)] else str_nat (n div 10) @ [char_of (48 + n mod 10)])"

definition str_int :: "int \<Rightarrow> string" where
  "str_int i = (if i < 0 then CHR ''-'' # str_nat (nat (- i)) else str_nat (nat i))"

declare str_nat.simps [simp del]

definition MINYEAR :: int where "MINYEAR = 1"
definition MAXYEAR :: int where "MAXYEAR = 9999"

definition DAYS_IN_MONTH :: "int list" where
  "DAYS_IN_MONTH = [-1, 31, 28, 31, 30, 31, 30, 31, 31, 30, 31, 30, 31]"

definition DAYS_BEFORE_MONTH :: "int list" where
  "DAYS_BEFORE_MONTH = [-1, 0, 31, 59, 90, 120, 151, 181, 212, 243, 273, 304, 334]"

definition is_leap :: "int \<Rightarrow> bool" where
  "is_leap y = (y mod 4 = 0 \<and> (y mod 100 \<noteq> 0 \<or> y mod 400 = 0))"

definition days_before_year :: "int \<Rightarrow> int" where
  "days_before_year y0 = (let y = y0 - 1 in y * 365 + y div 4 - y div 100 + y div 400)"

definition days_in_month :: "int \<Rightarrow> int \<Rightarrow> int" where
  "days_in_month y m = (if m = 2 \<and> is_leap y then 29 else DAYS_IN_MONTH ! nat m)"

definition days_before_month :: "int \<Rightarrow> int \<Rightarrow> int" where
  "days_before_month y m = DAYS_BEFORE_MONTH ! nat m + (if m > 2 \<and> is_leap y then 1 else 0)"

definition ymd2ord :: "int \<Rightarrow> int \<Rightarrow> int \<Rightarrow> int" where
  "ymd2ord y m d = days_before_year y + days_before_month y m + d"

definition date_new :: "int \<Rightarrow> int \<Rightarrow> int \<Rightarrow> error + date" where
  "date_new y m d =
     (if \<not> (MINYEAR \<le> y \<and> y \<le> MAXYEAR)
        then Inl (ValueError (''year '' @ str_int y @ '' is out of range''))
      else if \<not> (1 \<le> m \<and> m \<le> 12) then Inl (ValueError ''month must be in 1..12'')
      else if \<not> (1 \<le> d \<and> d \<le> days_in_month y m)
        then Inl (ValueError ''day is out of range for month'')
      else Inr \<lparr>year = y, month = m, day = d\<rparr>)"

text \<open>\<^verbatim>\<open>date.replace(year=y)\<close> builds a new date from the changed fields, checks included.\<close>

definition replace_year :: "date \<Rightarrow> int \<Rightarrow> error + date" where
  "replace_year d y = date_new y (month d) (day d)"

text \<open>Dates compare as the triples (year, month, day) do.\<close>

definition date_less :: "date \<Rightarrow> date \<Rightarrow> bool" where
  "date_less a b =
     (year a < year b \<or> (year a = year b \<and> (month a < month b \<or> (month a = month b \<and> day a < day b))))"

definition toordinal :: "date \<Rightarrow> int" where
  "toordinal d = ymd2ord (year d) (month d) (day d)"

text \<open>\<^verbatim>\<open>(a - b).days\<close>: the difference of the two ordinals.\<close>

definition sub_days :: "date \<Rightarrow> date \<Rightarrow> int" where
  "sub_days a b = toordinal a - toordinal b"

subsection \<open>Rendering: strftime\<close>

text \<open>
  \<^verbatim>\<open>date.strftime\<close> hands the directives to the C library. \<^verbatim>\<open>%d\<close> and \<^verbatim>\<open>%m\<close> are two
  digits, zero filled; \<^verbatim>\<open>%Y\<close> is the decimal numeral of the year, which the GNU C
  library does not fill (\<^verbatim>\<open>date(999, 1, 1).strftime('%Y')\<close> is \<^verbatim>\<open>'999'\<close>
  under CPython 3.11 on Linux). Every other character of the format is copied. The
  program uses the formats \<^verbatim>\<open>%d.%m.%Y\<close> and \<^verbatim>\<open>%Y-%m-%d\<close>; no other directive is modelled.
\<close>

definition zfill2 :: "int \<Rightarrow> string" where
  "zfill2 i = (let s = str_int i in if length s < 2 then CHR ''0'' # s else s)"

definition directive :: "char \<Rightarrow> date \<Rightarrow> string" where
  "directive x d =
     (if x = CHR ''Y'' then str_int (year d)
      else if x = CHR ''m'' then zfill2 (month d)
      else if x = CHR ''d'' then zfill2 (day d)
      else [CHR ''%'', x])"

fun strftime :: "date \<Rightarrow> string \<Rightarrow> string" where
  "strftime d [] = []"
| "strftime d [c] = [c]"
| "strftime d (c # x # fmt) =
     (if c = CHR ''%'' then directive x d @ strftime d fmt else c # strftime d (x # fmt))"


subsection \<open>Parsing: strptime with the format \<^verbatim>\<open>%d.%m.%Y\<close>\<close>

text \<open>
  \<^verbatim>\<open>_strptime\<close> compiles the format to the regular expression
  \<^verbatim>\<open>(?P<d>3[0-1]|[1-2]\d|0[1-9]|[1-9]| [1-9])\.(?P<m>1[0-2]|0[1-9]|[1-9])\.(?P<Y>\d\d\d\d)\<close>,
  matches it at the start of the text, and raises \<^verbatim>\<open>ValueError\<close> when there is no match
  or when the match does not reach the end of the text. A matcher returns every way
  to match, as pairs of the matched text and the rest, in the order in which the
  backtracking engine tries the alternatives; the engine takes the first.
\<close>

definition between :: "char \<Rightarrow> char \<Rightarrow> char \<Rightarrow> bool" where
  "between lo hi c = (ord lo \<le> ord c \<and> ord c \<le> ord hi)"

definition two_chars :: "(char \<Rightarrow> bool) \<Rightarrow> (char \<Rightarrow> bool) \<Rightarrow> string \<Rightarrow> (string \<times> string) list" where
  "two_chars P Q s = (case s of a # b # rest \<Rightarrow> if P a \<and> Q b then [([a, b], rest)] else [] | _ \<Rightarrow> [])"

definition one_char :: "(char \<Rightarrow> bool) \<Rightarrow> string \<Rightarrow> (string \<times> string) list" where
  "one_char P s = (case s of a # rest \<Rightarrow> if P a then [([a], rest)] else [] | _ \<Rightarrow> [])"

definition group_d :: "string \<Rightarrow> (string \<times> string) list" where
  "group_d s =
     two_chars (\<lambda>c. c = CHR ''3'') (between CHR ''0'' CHR ''1'') s
     @ two_chars (between CHR ''1'' CHR ''2'') is_decimal_digit s
     @ two_chars (\<lambda>c. c = CHR ''0'') (between CHR ''1'' CHR ''9'') s
     @ one_char (between CHR ''1'' CHR ''9'') s
     @ two_chars (\<lambda>c. c = CHR '' '') (between CHR ''1'' CHR ''9'') s"

definition group_m :: "string \<Rightarrow> (string \<times> string) list" where
  "group_m s =
     two_chars (\<lambda>c. c = CHR ''1'') (between CHR ''0'' CHR ''2'') s
     @ two_chars (\<lambda>c. c = CHR ''0'') (between CHR ''1'' CHR ''9'') s
     @ one_char (between CHR ''1'' CHR ''9'') s"

definition group_Y :: "string \<Rightarrow> (string \<times> string) list" where
  "group_Y s =
     (case s of a # b # c # d # rest \<Rightarrow>
        if is_decimal_digit a \<and> is_decimal_digit b \<and> is_decimal_digit c \<and> is_decimal_digit d
        then [([a, b, c, d], rest)] else []
      | _ \<Rightarrow> [])"

definition dot :: "string \<Rightarrow> string list" where
  "dot s = (case s of a # rest \<Rightarrow> if a = CHR ''.'' then [rest] else [] | [] \<Rightarrow> [])"

text \<open>All matches of the whole expression: the three groups and what is left of the text.\<close>

definition format_regex :: "string \<Rightarrow> (string \<times> string \<times> string \<times> string) list" where
  "format_regex s =
     concat (map (\<lambda>(d, r1).
       concat (map (\<lambda>r2.
         concat (map (\<lambda>(m, r3).
           concat (map (\<lambda>r4.
             map (\<lambda>(y, r5). (d, m, y, r5)) (group_Y r4))
           (dot r3)))
         (group_m r2)))
       (dot r1)))
     (group_d s))"

text \<open>
  \<^verbatim>\<open>int\<close> on the text of a group: surrounding white space is stripped, then the text is
  read as a decimal numeral. (Signs and underscores, which \<^verbatim>\<open>int\<close> also reads, cannot
  occur in a group.)
\<close>

definition isspace :: "char \<Rightarrow> bool" where
  "isspace c = ((9 \<le> ord c \<and> ord c \<le> 13) \<or> (28 \<le> ord c \<and> ord c \<le> 32) \<or> ord c = 133 \<or> ord c = 160)"

definition strip :: "string \<Rightarrow> string" where
  "strip s = rev (dropWhile isspace (rev (dropWhile isspace s)))"

definition decimal_value :: "string \<Rightarrow> int" where
  "decimal_value t = foldl (\<lambda>acc c. 10 * acc + (int (ord c) - 48)) 0 t"

definition py_int :: "string \<Rightarrow> error + int" where
  "py_int s =
     (let t = strip s in
      if t \<noteq> [] \<and> list_all is_decimal_digit t
      then Inr (decimal_value t)
      else Inl (ValueError ''invalid literal for int() with base 10''))"

text \<open>
  \<^verbatim>\<open>datetime.strptime(value, '%d.%m.%Y').date()\<close>: the match, the three conversions,
  and the date built from them, which is where a day such as 31.04 or a year 0000 is
  refused. The messages of the two matching errors are shortened: they quote the text,
  and \<^verbatim>\<open>Birthday\<close> replaces them anyway.
\<close>

definition strptime :: "string \<Rightarrow> error + date" where
  "strptime s =
     (case format_regex s of
        [] \<Rightarrow> Inl (ValueError ''time data does not match format'')
      | (d, m, y, rest) # _ \<Rightarrow>
          if rest \<noteq> [] then Inl (ValueError ''unconverted data remains'')
          else (case py_int y of Inl e \<Rightarrow> Inl e | Inr yv \<Rightarrow>
                (case py_int m of Inl e \<Rightarrow> Inl e | Inr mv \<Rightarrow>
                 (case py_int d of Inl e \<Rightarrow> Inl e | Inr dv \<Rightarrow> date_new yv mv dv))))"

section \<open>Birthday\<close>

text \<open>
  A \<^verbatim>\<open>Birthday\<close> object is represented by its \<^verbatim>\<open>value\<close>, the parsed date. Every
  \<^verbatim>\<open>ValueError\<close> of the parse is caught and raised again with the program's message.
\<close>

definition Birthday :: "string \<Rightarrow> error + date" where
  "Birthday v =
     (case strptime v of
        Inl (ValueError _) \<Rightarrow> Inl (ValueError ''Invalid date format. Use DD.MM.YYYY'')
      | Inl e \<Rightarrow> Inl e
      | Inr d \<Rightarrow> Inr d)"

definition Birthday_str :: "date \<Rightarrow> string" where
  "Birthday_str d = strftime d ''%d.%m.%Y''"

section \<open>Record\<close>

record Record =
  name :: string
  phones :: "string list"
  birthday :: "date option"

definition Record_init :: "string \<Rightarrow> error + Record" where
  "Record_init n =
     (case Name n of Inl e \<Rightarrow> Inl e | Inr v \<Rightarrow> Inr \<lparr>name = v, phones = [], birthday = None\<rparr>)"

definition add_phone :: "Record \<Rightarrow> string \<Rightarrow> error + Record" where
  "add_phone r phone =
     (case Phone phone of Inl e \<Rightarrow> Inl e | Inr p \<Rightarrow> Inr (r\<lparr>phones := phones r @ [p]\<rparr>))"

definition remove_phone :: "Record \<Rightarrow> string \<Rightarrow> Record" where
  "remove_phone r phone = r\<lparr>phones := [p. p \<leftarrow> phones r, p \<noteq> phone]\<rparr>"

text \<open>
  \<^verbatim>\<open>edit_phone\<close> walks the list by index; at the first phone equal to \<^verbatim>\<open>old_phone\<close> it
  builds the new phone, which may raise, stores it at that index and returns. When the
  loop ends without a match the method returns without having done anything.
\<close>

function edit_phone_from :: "nat \<Rightarrow> Record \<Rightarrow> string \<Rightarrow> string \<Rightarrow> error + Record" where
  "edit_phone_from i r old_phone new_phone =
     (if i < length (phones r) then
        (if phones r ! i = old_phone then
           (case Phone new_phone of
              Inl e \<Rightarrow> Inl e
            | Inr p \<Rightarrow> Inr (r\<lparr>phones := (phones r)[i := p]\<rparr>))
         else edit_phone_from (Suc i) r old_phone new_phone)
      else Inr r)"
  by pat_completeness auto
termination
  by (relation "measure (\<lambda>(i, r, old_phone, new_phone). length (phones r) - i)") auto

declare edit_phone_from.simps [simp del]

definition edit_phone :: "Record \<Rightarrow> string \<Rightarrow> string \<Rightarrow> error + Record" where
  "edit_phone r old_phone new_phone = edit_phone_from 0 r old_phone new_phone"

fun find_phone_in :: "string list \<Rightarrow> string \<Rightarrow> string option" where
  "find_phone_in [] phone = None"
| "find_phone_in (p # ps) phone = (if p = phone then Some p else find_phone_in ps phone)"

definition find_phone :: "Record \<Rightarrow> string \<Rightarrow> string option" where
  "find_phone r phone = find_phone_in (phones r) phone"

definition add_birthday :: "Record \<Rightarrow> string \<Rightarrow> error + Record" where
  "add_birthday r b =
     (case Birthday b of Inl e \<Rightarrow> Inl e | Inr d \<Rightarrow> Inr (r\<lparr>birthday := Some d\<rparr>))"

text \<open>
  A run of Record operations. An operation that raises leaves the record as it was: each
  method builds the new \<^verbatim>\<open>Phone\<close> before it touches the list.
\<close>

datatype recop =
    Add_phone string
  | Remove_phone string
  | Edit_phone string string

fun exec_op :: "Record \<Rightarrow> recop \<Rightarrow> Record" where
  "exec_op r (Add_phone p) = (case add_phone r p of Inl e \<Rightarrow> r | Inr r' \<Rightarrow> r')"
| "exec_op r (Remove_phone p) = remove_phone r p"
| "exec_op r (Edit_phone old_phone new_phone) =
     (case edit_phone r old_phone new_phone of Inl e \<Rightarrow> r | Inr r' \<Rightarrow> r')"

definition exec_ops :: "Record \<Rightarrow> recop list \<Rightarrow> Record" where
  "exec_ops r ops = foldl exec_op r ops"

section \<open>AddressBook\<close>

text \<open>
  The \<^verbatim>\<open>data\<close> dictionary of the \<^verbatim>\<open>UserDict\<close>, as the list of its items in insertion
  order. Storing under a key that is present keeps the key's place; \<^verbatim>\<open>del\<close> on a
  missing key raises \<^verbatim>\<open>KeyError\<close>; \<^verbatim>\<open>get\<close> returns \<^verbatim>\<open>None\<close> for a missing key.
\<close>

type_synonym AddressBook = "(string \<times> Record) list"

definition contains :: "AddressBook \<Rightarrow> string \<Rightarrow> bool" where
  "contains book k = (k \<in> fst ` set book)"

definition setitem :: "AddressBook \<Rightarrow> string \<Rightarrow> Record \<Rightarrow> AddressBook" where
  "setitem book k v =
     (if contains book k then map (\<lambda>(k', v'). if k' = k then (k', v) else (k', v')) book
      else book @ [(k, v)])"

definition delitem :: "AddressBook \<Rightarrow> string \<Rightarrow> error + AddressBook" where
  "delitem book k =
     (if contains book k then Inr (filter (\<lambda>(k', v'). k' \<noteq> k) book) else Inl KeyError)"

definition get :: "AddressBook \<Rightarrow> string \<Rightarrow> Record option" where
  "get book k = map_of book k"

definition values_of :: "AddressBook \<Rightarrow> Record list" where
  "values_of book = map snd book"

definition add_record :: "AddressBook \<Rightarrow> Record \<Rightarrow> AddressBook" where
  "add_record book r = setitem book (name r) r"

definition delete :: "AddressBook \<Rightarrow> string \<Rightarrow> error + AddressBook" where
  "delete book n = (if contains book n then delitem book n else Inr book)"

definition find_record :: "AddressBook \<Rightarrow> string \<Rightarrow> Record option" where
  "find_record book n = get book n"

text \<open>
  \<^verbatim>\<open>get_upcoming_birthdays\<close>, with \<^verbatim>\<open>date.today()\<close> as the parameter \<open>today\<close>. The loop
  runs over the records in the dictionary's order and appends to the result list; each
  entry is the dictionary with the keys \<^verbatim>\<open>name\<close> and \<^verbatim>\<open>congratulation_date\<close>. Both calls
  of \<^verbatim>\<open>replace\<close> can raise, and nothing in the method catches that.
\<close>

type_synonym entry = "(string \<times> string) list"

fun upcoming_loop :: "date \<Rightarrow> int \<Rightarrow> Record list \<Rightarrow> entry list \<Rightarrow> error + entry list" where
  "upcoming_loop today days [] upcoming_birthdays = Inr upcoming_birthdays"
| "upcoming_loop today days (r # rs) upcoming_birthdays =
     (case birthday r of
        None \<Rightarrow> upcoming_loop today days rs upcoming_birthdays
      | Some b \<Rightarrow>
          (case replace_year b (year today) of
             Inl e \<Rightarrow> Inl e
           | Inr birthday_this_year \<Rightarrow>
               (case (if date_less birthday_this_year today
                      then replace_year birthday_this_year (year today + 1)
                      else Inr birthday_this_year) of
                  Inl e \<Rightarrow> Inl e
                | Inr birthday_this_year' \<Rightarrow>
                    if 0 \<le> sub_days birthday_this_year' today
                       \<and> sub_days birthday_this_year' today \<le> days
                    then upcoming_loop today days rs
                           (upcoming_birthdays @
                             [[(''name'', name r),
                               (''congratulation_date'', strftime birthday_this_year' ''%Y-%m-%d'')]])
                    else upcoming_loop today days rs upcoming_birthdays)))"

definition get_upcoming_birthdays :: "AddressBook \<Rightarrow> date \<Rightarrow> int \<Rightarrow> error + entry list" where
  "get_upcoming_birthdays book today days = upcoming_loop today days (values_of book) []"

section \<open>The change command\<close>

text \<open>
  A handler returns its message, or the exception that leaves it, together with the book
  as the handler leaves it. The decorator \<^verbatim>\<open>input_error\<close> turns \<^verbatim>\<open>ValueError\<close>,
  \<^verbatim>\<open>KeyError\<close> and \<^verbatim>\<open>IndexError\<close> into messages and lets every other exception pass.
  A \<^verbatim>\<open>Record\<close> object is always true, so \<^verbatim>\<open>if record\<close> tests that the name was found.
\<close>

type_synonym outcome = "(error + string) \<times> AddressBook"

definition input_error :: "outcome \<Rightarrow> outcome" where
  "input_error res =
     (case fst res of
        Inl (ValueError msg) \<Rightarrow> (Inr msg, snd res)
      | Inl KeyError \<Rightarrow> (Inr ''Key Error'', snd res)
      | Inl IndexError \<Rightarrow> (Inr ''Please enter the name.'', snd res)
      | _ \<Rightarrow> res)"

text \<open>
  \<^verbatim>\<open>record.phones\<close> is a plain \<^verbatim>\<open>list\<close>. Looking up a method on it succeeds for the
  methods of \<^verbatim>\<open>list\<close> and raises \<^verbatim>\<open>AttributeError\<close> for any other name.
\<close>

definition list_methods :: "string list" where
  "list_methods =
     [''append'', ''clear'', ''copy'', ''count'', ''extend'', ''index'', ''insert'', ''pop'',
      ''remove'', ''reverse'', ''sort'']"

definition quoted :: "string \<Rightarrow> string" where
  "quoted s = CHR 0x27 # s @ [CHR 0x27]"

definition list_getattr :: "string \<Rightarrow> error + unit" where
  "list_getattr attr =
     (if attr \<in> set list_methods then Inr ()
      else Inl (AttributeError (quoted ''list'' @ '' object has no attribute '' @ quoted attr)))"

fun change_loop :: "string list \<Rightarrow> Record \<Rightarrow> string \<Rightarrow> string \<Rightarrow> string \<Rightarrow> AddressBook \<Rightarrow> outcome" where
  "change_loop [] rec nm old_phone new_phone book =
     (Inr (''The contact '' @ nm @ '' does not have the phone number '' @ old_phone @ ''.''), book)"
| "change_loop (phone # rest) rec nm old_phone new_phone book =
     (if phone = old_phone then
        (case list_getattr ''remove_phone'' of
           Inl e \<Rightarrow> (Inl e, book)
         | Inr u \<Rightarrow>
             (case add_phone rec new_phone of
                Inl e \<Rightarrow> (Inl e, book)
              | Inr r' \<Rightarrow> (Inr ''Contact updated.'', setitem book nm r')))
      else change_loop rest rec nm old_phone new_phone book)"

definition change_contact_body :: "string list \<Rightarrow> AddressBook \<Rightarrow> outcome" where
  "change_contact_body args book =
     (if length args < 3
      then (Inr ''Give me name, old phone number, and new phone number please.'', book)
      else (case args of
              [nm, old_phone, new_phone] \<Rightarrow>
                (case find_record book nm of
                   Some rec \<Rightarrow> change_loop (phones rec) rec nm old_phone new_phone book
                 | None \<Rightarrow>
                     (Inr (''There are no contacts with the name '' @ nm
                           @ ''. Type 'add' to add a new contact.''), book))
            | _ \<Rightarrow> (Inl (ValueError ''too many values to unpack (expected 3)''), book)))"

definition change_contact :: "string list \<Rightarrow> AddressBook \<Rightarrow> outcome" where
  "change_contact args book = input_error (change_contact_body args book)"

section \<open>The properties, in the words of the specification\<close>

text \<open>A date of the calendar, as \<^verbatim>\<open>datetime.date\<close> admits it.\<close>

definition valid_date :: "date \<Rightarrow> bool" where
  "valid_date d =
     (MINYEAR \<le> year d \<and> year d \<le> MAXYEAR \<and> 1 \<le> month d \<and> month d \<le> 12
      \<and> 1 \<le> day d \<and> day d \<le> days_in_month (year d) (month d))"

text \<open>A phone as the specification describes it: exactly ten decimal digits.\<close>

definition ten_decimal_digits :: "string \<Rightarrow> bool" where
  "ten_decimal_digits s = (length s = 10 \<and> list_all is_decimal_digit s)"

text \<open>
  The texts a birthday is written with. Strictly: two digits, a dot, two digits, a dot,
  four digits. Leniently: a day of one or two digits or of a space and a digit, a month
  of one or two digits, a year of four digits.
\<close>

definition matches_DD_MM_YYYY :: "string \<Rightarrow> bool" where
  "matches_DD_MM_YYYY s =
     (case s of
        [a, b, p, c, d, q, e, f, g, h] \<Rightarrow>
          list_all is_decimal_digit [a, b, c, d, e, f, g, h] \<and> p = CHR ''.'' \<and> q = CHR ''.''
      | _ \<Rightarrow> False)"

definition day_text :: "string \<Rightarrow> bool" where
  "day_text t =
     (case t of
        [a] \<Rightarrow> is_decimal_digit a
      | [a, b] \<Rightarrow> (is_decimal_digit a \<or> a = CHR '' '') \<and> is_decimal_digit b
      | _ \<Rightarrow> False)"

definition month_text :: "string \<Rightarrow> bool" where
  "month_text t =
     (case t of
        [a] \<Rightarrow> is_decimal_digit a
      | [a, b] \<Rightarrow> is_decimal_digit a \<and> is_decimal_digit b
      | _ \<Rightarrow> False)"

definition year_text :: "string \<Rightarrow> bool" where
  "year_text t = (length t = 4 \<and> list_all is_decimal_digit t)"

text \<open>The number a text of digits denotes; a leading space does not count.\<close>

definition number_of :: "string \<Rightarrow> int" where
  "number_of t = decimal_value (filter (\<lambda>c. c \<noteq> CHR '' '') t)"

definition denoted :: "string \<Rightarrow> string \<Rightarrow> string \<Rightarrow> date" where
  "denoted D M Y = \<lparr>year = number_of Y, month = number_of M, day = number_of D\<rparr>"

text \<open>The date a text of the strict shape denotes: its three fields read as numbers.\<close>

definition date_of_text :: "string \<Rightarrow> date" where
  "date_of_text s = denoted (take 2 s) (take 2 (drop 3 s)) (drop 6 s)"

text \<open>
  The upcoming birthdays as the specification words them: this year's occurrence of the
  birthday, next year's if that fell before today; the window of day differences; one
  entry for each record inside the window, in the order of the book.
\<close>

definition this_year :: "date \<Rightarrow> date \<Rightarrow> date" where
  "this_year today b = b\<lparr>year := year today\<rparr>"

definition occurrence :: "date \<Rightarrow> date \<Rightarrow> date" where
  "occurrence today b =
     (if date_less (this_year today b) today then b\<lparr>year := year today + 1\<rparr>
      else this_year today b)"






text \<open>
  Every occurrence the query asks for exists: the birthday's month and day in today's
  year, and in the next year where the birthday already fell before today.
\<close>

definition occurrences_exist :: "AddressBook \<Rightarrow> date \<Rightarrow> bool" where
  "occurrences_exist book today =
     (\<forall>r \<in> set (values_of book).
        case birthday r of
          None \<Rightarrow> True
        | Some b \<Rightarrow> valid_date (this_year today b) \<and> valid_date (occurrence today b))"

section \<open>Phone validation\<close>

lemma is_valid_iff: "is_valid s \<longleftrightarrow> length s = 10 \<and> (\<forall>c \<in> set s. char_isdigit c)"
  by (auto simp: is_valid_def isdigit_def list_all_iff)

lemma ascii_isdigit: "ord c < 128 \<Longrightarrow> char_isdigit c \<longleftrightarrow> is_decimal_digit c"
  by (auto simp: char_isdigit_def is_decimal_digit_def)

text \<open>
  Claim C4, as the program has it. \<^verbatim>\<open>Phone(s)\<close> succeeds exactly when \<open>s\<close> has ten
  characters that all satisfy \<^verbatim>\<open>str.isdigit\<close>, the stored and rendered value is then \<open>s\<close>
  itself, and every other string is refused with the \<^verbatim>\<open>ValueError\<close> of the constructor.
  For a string of ASCII characters the accepted strings are exactly those of ten decimal
  digits.
\<close>

theorem Phone_accepts_isdigit:
  "(Phone s = Inr p \<longleftrightarrow> p = s \<and> length s = 10 \<and> (\<forall>c \<in> set s. char_isdigit c))
   \<and> (Phone s = Inr p \<longrightarrow> Field_str p = s)
   \<and> (\<not> (length s = 10 \<and> (\<forall>c \<in> set s. char_isdigit c))
        \<longrightarrow> Phone s = Inl (ValueError ''Phone number must be 10 digits''))
   \<and> ((\<forall>c \<in> set s. ord c < 128)
        \<longrightarrow> ((\<exists>q. Phone s = Inr q) \<longleftrightarrow> length s = 10 \<and> (\<forall>c \<in> set s. is_decimal_digit c)))"
  using ascii_isdigit by (auto simp: Phone_def is_valid_iff Field_str_def)

theorem Phone_accepts_isdigit_witness:
  "Phone ''0123456789'' = Inr ''0123456789'' \<and> Field_str ''0123456789'' = ''0123456789''
   \<and> Phone ''12345'' = Inl (ValueError ''Phone number must be 10 digits'')
   \<and> Phone ''12345abcde'' = Inl (ValueError ''Phone number must be 10 digits'')"
  using Phone_accepts_isdigit [of "''0123456789''" "''0123456789''"]
    Phone_accepts_isdigit [of "''12345''" "''12345''"]
    Phone_accepts_isdigit [of "''12345abcde''" "''12345abcde''"]
  by (simp add: char_isdigit_def ord_def)

text \<open>
  Claim C4 as stated fails: ten times the character U+00B2 (superscript two) is a string
  of ten characters none of which is a decimal digit, and \<^verbatim>\<open>Phone\<close> accepts it, because
  \<^verbatim>\<open>str.isdigit\<close> holds of the superscript digits.
\<close>

theorem Phone_superscript_counterexample:
  "Phone (replicate 10 (CHR 0xB2)) = Inr (replicate 10 (CHR 0xB2))
   \<and> length (replicate 10 (CHR 0xB2)) = 10
   \<and> \<not> list_all is_decimal_digit (replicate 10 (CHR 0xB2))"
  by (simp add: Phone_def is_valid_def isdigit_def char_isdigit_def is_decimal_digit_def ord_def
      list_all_iff)

section \<open>Removing and editing phones\<close>

lemma comprehension_filter: "[p. p \<leftarrow> xs, p \<noteq> raw] = filter (\<lambda>p. p \<noteq> raw) xs"
  by (induction xs) simp_all

text \<open>
  Claim C7. \<^verbatim>\<open>remove_phone(raw)\<close> keeps exactly the phones different from \<open>raw\<close>: \<open>raw\<close>
  no longer occurs, what is left is a subsequence of the old list with every other phone
  as often as before, name and birthday are untouched, and without a match the record is
  unchanged. On \<^verbatim>\<open>["1111111111", "2222222222"]\<close>, removing \<^verbatim>\<open>"1111111111"\<close> leaves
  \<^verbatim>\<open>["2222222222"]\<close>.
\<close>

theorem remove_phone_removes_all:
  "phones (remove_phone r raw) = filter (\<lambda>p. p \<noteq> raw) (phones r)
   \<and> raw \<notin> set (phones (remove_phone r raw))
   \<and> subseq (phones (remove_phone r raw)) (phones r)
   \<and> (\<forall>p. p \<noteq> raw \<longrightarrow> count_list (phones (remove_phone r raw)) p = count_list (phones r) p)
   \<and> (raw \<notin> set (phones r) \<longrightarrow> remove_phone r raw = r)
   \<and> name (remove_phone r raw) = name r \<and> birthday (remove_phone r raw) = birthday r
   \<and> (phones r = [''1111111111'', ''2222222222'']
        \<longrightarrow> phones (remove_phone r ''1111111111'') = [''2222222222''])"
proof -
  have f: "phones (remove_phone r raw) = filter (\<lambda>p. p \<noteq> raw) (phones r)"
    by (simp add: remove_phone_def comprehension_filter)
  have c: "p \<noteq> raw \<Longrightarrow> count_list (filter (\<lambda>p. p \<noteq> raw) xs) p = count_list xs p" for p xs
    by (induction xs) auto
  have n: "remove_phone r raw = r" if "raw \<notin> set (phones r)"
  proof -
    have "filter (\<lambda>p. p \<noteq> raw) (phones r) = phones r"
      using that by (auto simp: filter_id_conv)
    then show ?thesis by (simp add: remove_phone_def comprehension_filter)
  qed
  have e: "phones r = [''1111111111'', ''2222222222'']
        \<Longrightarrow> phones (remove_phone r ''1111111111'') = [''2222222222'']"
    by (simp add: remove_phone_def)
  show ?thesis
    using f c n e by (auto simp: remove_phone_def)
qed

theorem remove_phone_removes_all_witness:
  "phones (remove_phone \<lparr>name = ''Bob'', phones = [''1111111111'', ''2222222222''], birthday = None\<rparr>
      ''1111111111'') = [''2222222222'']
   \<and> remove_phone \<lparr>name = ''Bob'', phones = [''1111111111'', ''2222222222''], birthday = None\<rparr>
      ''3333333333'' = \<lparr>name = ''Bob'', phones = [''1111111111'', ''2222222222''], birthday = None\<rparr>"
  using remove_phone_removes_all
    [of "\<lparr>name = ''Bob'', phones = [''1111111111'', ''2222222222''], birthday = None\<rparr>" "''1111111111''"]
    remove_phone_removes_all
    [of "\<lparr>name = ''Bob'', phones = [''1111111111'', ''2222222222''], birthday = None\<rparr>" "''3333333333''"]
  by simp

text \<open>The loop of \<^verbatim>\<open>edit_phone\<close>, started at index \<open>i\<close>: no match from \<open>i\<close> on, or a first match at \<open>k\<close>.\<close>

lemma edit_from_none:
  "\<forall>j. i \<le> j \<and> j < length (phones r) \<longrightarrow> phones r ! j \<noteq> old
   \<Longrightarrow> edit_phone_from i r old new = Inr r"
proof (induction i r old new rule: edit_phone_from.induct)
  case (1 i r old new)
  show ?case
  proof (cases "i < length (phones r)")
    case True
    with "1.prems" have ne: "phones r ! i \<noteq> old" by simp
    have "edit_phone_from (Suc i) r old new = Inr r"
      using "1.IH" [OF True ne] "1.prems" by simp
    with True ne show ?thesis by (simp add: edit_phone_from.simps [of i])
  next
    case False
    then show ?thesis by (simp add: edit_phone_from.simps [of i])
  qed
qed

lemma edit_from_hit:
  "i \<le> k \<Longrightarrow> k < length (phones r) \<Longrightarrow> phones r ! k = old
   \<Longrightarrow> \<forall>j. i \<le> j \<and> j < k \<longrightarrow> phones r ! j \<noteq> old
   \<Longrightarrow> edit_phone_from i r old new =
        (case Phone new of Inl e \<Rightarrow> Inl e | Inr p \<Rightarrow> Inr (r\<lparr>phones := (phones r)[k := p]\<rparr>))"
proof (induction i r old new rule: edit_phone_from.induct)
  case (1 i r old new)
  have il: "i < length (phones r)" using "1.prems" by simp
  show ?case
  proof (cases "i = k")
    case True
    with "1.prems" il show ?thesis by (simp add: edit_phone_from.simps [of k])
  next
    case False
    with "1.prems" have lt: "i < k" by simp
    with "1.prems" have ne: "phones r ! i \<noteq> old" by simp
    have "edit_phone_from (Suc i) r old new =
        (case Phone new of Inl e \<Rightarrow> Inl e | Inr p \<Rightarrow> Inr (r\<lparr>phones := (phones r)[k := p]\<rparr>))"
      using "1.IH" [OF il ne] "1.prems" lt by simp
    with il ne show ?thesis by (simp add: edit_phone_from.simps [of i])
  qed
qed

text \<open>
  Claim C6. Without a phone equal to \<open>old\<close>, \<^verbatim>\<open>edit_phone\<close> returns normally and the record
  is unchanged, whatever \<open>new\<close> is. With a first match, behind a prefix \<open>pre\<close> free of
  \<open>old\<close>, that one phone becomes the validated \<open>new\<close> and every other phone stays where it
  was; validation is the constructor's, so an invalid \<open>new\<close> raises and stores nothing.
\<close>

theorem edit_phone_first_match:
  "(old \<notin> set (phones r) \<longrightarrow> edit_phone r old new = Inr r)
   \<and> (\<forall>pre post. phones r = pre @ old # post \<and> old \<notin> set pre \<longrightarrow>
        edit_phone r old new =
          (if is_valid new then Inr (r\<lparr>phones := pre @ new # post\<rparr>)
           else Inl (ValueError ''Phone number must be 10 digits'')))"
proof (intro conjI impI allI)
  assume "old \<notin> set (phones r)"
  then have "\<forall>j. 0 \<le> j \<and> j < length (phones r) \<longrightarrow> phones r ! j \<noteq> old"
    by (metis nth_mem)
  then show "edit_phone r old new = Inr r"
    unfolding edit_phone_def by (rule edit_from_none)
next
  fix pre post
  assume a: "phones r = pre @ old # post \<and> old \<notin> set pre"
  have k: "length pre < length (phones r)" "phones r ! length pre = old"
    using a by simp_all
  have b: "\<forall>j. 0 \<le> j \<and> j < length pre \<longrightarrow> phones r ! j \<noteq> old"
    using a by (auto simp: nth_append)
  have "edit_phone r old new =
        (case Phone new of Inl e \<Rightarrow> Inl e | Inr p \<Rightarrow> Inr (r\<lparr>phones := (phones r)[length pre := p]\<rparr>))"
    unfolding edit_phone_def using edit_from_hit [OF _ k b] by simp
  then show "edit_phone r old new =
          (if is_valid new then Inr (r\<lparr>phones := pre @ new # post\<rparr>)
           else Inl (ValueError ''Phone number must be 10 digits''))"
    using a by (simp add: Phone_def)
qed

theorem edit_phone_first_match_witness:
  "edit_phone \<lparr>name = ''Bob'', phones = [''2222222222''], birthday = None\<rparr> ''2222222222'' ''3333333333''
     = Inr \<lparr>name = ''Bob'', phones = [''3333333333''], birthday = None\<rparr>
   \<and> edit_phone \<lparr>name = ''Bob'', phones = [''2222222222''], birthday = None\<rparr> ''4444444444'' ''3333333333''
     = Inr \<lparr>name = ''Bob'', phones = [''2222222222''], birthday = None\<rparr>"
proof -
  have v: "is_valid ''3333333333''"
    by (simp add: is_valid_iff char_isdigit_def ord_def)
  have "edit_phone \<lparr>name = ''Bob'', phones = [''2222222222''], birthday = None\<rparr> ''2222222222'' ''3333333333''
     = Inr \<lparr>name = ''Bob'', phones = [''3333333333''], birthday = None\<rparr>"
    using edit_phone_first_match
      [of "''2222222222''" "\<lparr>name = ''Bob'', phones = [''2222222222''], birthday = None\<rparr>" "''3333333333''",
       THEN conjunct2, rule_format, of "[]" "[]"] v
    by simp
  moreover have "edit_phone \<lparr>name = ''Bob'', phones = [''2222222222''], birthday = None\<rparr> ''4444444444'' ''3333333333''
     = Inr \<lparr>name = ''Bob'', phones = [''2222222222''], birthday = None\<rparr>"
    using edit_phone_first_match
      [of "''4444444444''" "\<lparr>name = ''Bob'', phones = [''2222222222''], birthday = None\<rparr>" "''3333333333''",
       THEN conjunct1]
    by simp
  ultimately show ?thesis by simp
qed

section \<open>Deleting and finding a name that is absent\<close>

lemma contains_map_of: "\<not> contains book n \<Longrightarrow> map_of book n = None"
  by (simp add: contains_def map_of_eq_None_iff)

text \<open>
  Claim C8. For a name that is not a key of the book, \<^verbatim>\<open>delete\<close> returns normally (the
  guard keeps \<^verbatim>\<open>del\<close> from raising \<^verbatim>\<open>KeyError\<close>) with the book unchanged, and \<^verbatim>\<open>find\<close>
  returns \<^verbatim>\<open>None\<close>.
\<close>

theorem delete_find_absent:
  "\<not> contains book n \<Longrightarrow> delete book n = Inr book \<and> find_record book n = None"
  by (simp add: delete_def find_record_def get_def contains_map_of)

theorem delete_find_absent_witness:
  "\<not> contains [(''Ann'', \<lparr>name = ''Ann'', phones = [''1111111111''], birthday = None\<rparr>)] ''nonexistent''
   \<and> delete [(''Ann'', \<lparr>name = ''Ann'', phones = [''1111111111''], birthday = None\<rparr>)] ''nonexistent''
       = Inr [(''Ann'', \<lparr>name = ''Ann'', phones = [''1111111111''], birthday = None\<rparr>)]
   \<and> find_record [(''Ann'', \<lparr>name = ''Ann'', phones = [''1111111111''], birthday = None\<rparr>)] ''nonexistent''
       = None"
proof -
  have h: "\<not> contains [(''Ann'', \<lparr>name = ''Ann'', phones = [''1111111111''], birthday = None\<rparr>)] ''nonexistent''"
    by (simp add: contains_def)
  show ?thesis using h delete_find_absent [OF h] by simp
qed

section \<open>The change command never succeeds\<close>

lemma getattr_remove_phone:
  "list_getattr ''remove_phone'' = Inl (AttributeError (quoted ''list'' @ '' object has no attribute '' @ quoted ''remove_phone''))"
  by (simp add: list_getattr_def list_methods_def)

lemma change_loop_hit:
  "old \<in> set ps \<Longrightarrow>
   change_loop ps r nm old new book =
     (Inl (AttributeError (quoted ''list'' @ '' object has no attribute '' @ quoted ''remove_phone'')), book)"
  by (induction ps) (auto simp: getattr_remove_phone)

lemma change_loop_outcomes:
  "change_loop ps r nm old new book =
     (Inl (AttributeError (quoted ''list'' @ '' object has no attribute '' @ quoted ''remove_phone'')), book)
   \<or> change_loop ps r nm old new book =
     (Inr (''The contact '' @ nm @ '' does not have the phone number '' @ old @ ''.''), book)"
  by (induction ps) (auto simp: getattr_remove_phone)

lemma change_body_outcomes:
  "snd (change_contact_body args book) = book
   \<and> (fst (change_contact_body args book) = Inl (AttributeError (quoted ''list'' @ '' object has no attribute '' @ quoted ''remove_phone''))
      \<or> fst (change_contact_body args book) = Inl (ValueError ''too many values to unpack (expected 3)'')
      \<or> (\<exists>c cs. fst (change_contact_body args book) = Inr (c # cs) \<and> c \<noteq> CHR ''C''))"
proof (cases "length args < 3")
  case True
  then show ?thesis by (simp add: change_contact_body_def)
next
  case False
  show ?thesis
  proof (cases "\<exists>nm old new. args = [nm, old, new]")
    case True
    then obtain nm old new where a: "args = [nm, old, new]" by blast
    show ?thesis
    proof (cases "find_record book nm")
      case None
      with a show ?thesis by (simp add: change_contact_body_def)
    next
      case (Some r)
      with a change_loop_outcomes [of "phones r" r nm old new book] show ?thesis
        by (auto simp: change_contact_body_def)
    qed
  next
    case F2: False
    with False show ?thesis
      by (auto simp: change_contact_body_def split: list.splits)
  qed
qed

text \<open>
  Claim C9. When the book has a record under \<open>nm\<close> whose phones contain \<open>old\<close>, the change
  handler leaves with \<^verbatim>\<open>AttributeError\<close>: the loop reaches the first match and calls
  \<^verbatim>\<open>remove_phone\<close> on the list, which has no such method, and \<^verbatim>\<open>input_error\<close> does not
  catch that exception. Whatever the arguments, the handler never answers
  \<^verbatim>\<open>Contact updated.\<close> and never changes the book.
\<close>

theorem change_contact_raises_AttributeError:
  "(find_record book nm = Some r \<and> old \<in> set (phones r) \<longrightarrow>
      change_contact [nm, old, new] book =
        (Inl (AttributeError (quoted ''list'' @ '' object has no attribute '' @ quoted ''remove_phone'')), book))
   \<and> fst (change_contact args book) \<noteq> Inr ''Contact updated.''
   \<and> snd (change_contact args book) = book"
proof (intro conjI impI)
  assume "find_record book nm = Some r \<and> old \<in> set (phones r)"
  then show "change_contact [nm, old, new] book =
        (Inl (AttributeError (quoted ''list'' @ '' object has no attribute '' @ quoted ''remove_phone'')), book)"
    by (simp add: change_contact_def change_contact_body_def change_loop_hit input_error_def)
next
  show "fst (change_contact args book) \<noteq> Inr ''Contact updated.''"
    using change_body_outcomes [of args book]
    by (auto simp: change_contact_def input_error_def)
next
  show "snd (change_contact args book) = book"
    using change_body_outcomes [of args book]
    by (auto simp: change_contact_def input_error_def split: sum.splits error.splits)
qed

theorem change_contact_raises_AttributeError_witness:
  "find_record [(''Ann'', \<lparr>name = ''Ann'', phones = [''1111111111''], birthday = None\<rparr>)] ''Ann''
     = Some \<lparr>name = ''Ann'', phones = [''1111111111''], birthday = None\<rparr>
   \<and> ''1111111111'' \<in> set (phones \<lparr>name = ''Ann'', phones = [''1111111111''], birthday = None\<rparr>)
   \<and> change_contact [''Ann'', ''1111111111'', ''2222222222'']
        [(''Ann'', \<lparr>name = ''Ann'', phones = [''1111111111''], birthday = None\<rparr>)]
     = (Inl (AttributeError (quoted ''list'' @ '' object has no attribute '' @ quoted ''remove_phone'')),
        [(''Ann'', \<lparr>name = ''Ann'', phones = [''1111111111''], birthday = None\<rparr>)])"
proof -
  have h: "find_record [(''Ann'', \<lparr>name = ''Ann'', phones = [''1111111111''], birthday = None\<rparr>)] ''Ann''
             = Some \<lparr>name = ''Ann'', phones = [''1111111111''], birthday = None\<rparr>
           \<and> ''1111111111'' \<in> set (phones \<lparr>name = ''Ann'', phones = [''1111111111''], birthday = None\<rparr>)"
    by (simp add: find_record_def get_def)
  show ?thesis
    using h change_contact_raises_AttributeError
      [of "[(''Ann'', \<lparr>name = ''Ann'', phones = [''1111111111''], birthday = None\<rparr>)]" "''Ann''"
          "\<lparr>name = ''Ann'', phones = [''1111111111''], birthday = None\<rparr>" "''1111111111''"
          "''2222222222''", THEN conjunct1]
    by simp
qed

section \<open>The phones of a record stay valid\<close>

lemma add_phone_valid:
  "list_all is_valid (phones r) \<Longrightarrow> add_phone r p = Inr r' \<Longrightarrow> list_all is_valid (phones r')"
  by (auto simp: add_phone_def Phone_def split: if_splits)

lemma remove_phone_valid:
  "list_all is_valid (phones r) \<Longrightarrow> list_all is_valid (phones (remove_phone r p))"
  by (simp add: remove_phone_def comprehension_filter list_all_iff)

lemma edit_phone_valid:
  assumes "list_all is_valid (phones r)" and "edit_phone r old new = Inr r'"
  shows "list_all is_valid (phones r')"
proof (cases "old \<in> set (phones r)")
  case False
  then have "edit_phone r old new = Inr r"
    unfolding edit_phone_def by (intro edit_from_none) (metis nth_mem)
  with assms show ?thesis by simp
next
  case True
  then obtain pre post where s: "phones r = pre @ old # post" "old \<notin> set pre"
    by (auto dest: split_list_first)
  have k: "length pre < length (phones r)" "phones r ! length pre = old"
    using s by simp_all
  have b: "\<forall>j. 0 \<le> j \<and> j < length pre \<longrightarrow> phones r ! j \<noteq> old"
    using s by (auto simp: nth_append)
  have "edit_phone r old new =
        (case Phone new of Inl e \<Rightarrow> Inl e | Inr p \<Rightarrow> Inr (r\<lparr>phones := (phones r)[length pre := p]\<rparr>))"
    unfolding edit_phone_def using edit_from_hit [OF _ k b] by simp
  with assms s show ?thesis
    by (auto simp: Phone_def split: if_splits)
qed

lemma exec_op_valid:
  "list_all is_valid (phones r) \<Longrightarrow> list_all is_valid (phones (exec_op r op))"
  by (cases op) (auto split: sum.splits intro: add_phone_valid remove_phone_valid edit_phone_valid)

lemma exec_ops_valid:
  "list_all is_valid (phones r) \<Longrightarrow> list_all is_valid (phones (exec_ops r ops))"
  unfolding exec_ops_def by (induction ops arbitrary: r) (simp_all add: exec_op_valid)

text \<open>
  Claim C10, as the program has it. A new record has no phones; each operation keeps the
  phones valid in the sense of \<^verbatim>\<open>Phone.is_valid\<close>; so after any run of operations on a new
  record every stored phone has ten characters that all satisfy \<^verbatim>\<open>str.isdigit\<close>, and a
  stored phone of ASCII characters consists of ten decimal digits.
\<close>

theorem Record_phones_stay_valid:
  "(Record_init n = Inr r0 \<longrightarrow> phones r0 = [])
   \<and> (list_all is_valid (phones r) \<longrightarrow> list_all is_valid (phones (exec_op r op)))
   \<and> (Record_init n = Inr r0 \<longrightarrow>
        (\<forall>p \<in> set (phones (exec_ops r0 ops)).
           length p = 10 \<and> (\<forall>c \<in> set p. char_isdigit c)
           \<and> ((\<forall>c \<in> set p. ord c < 128) \<longrightarrow> ten_decimal_digits p)))"
proof (intro conjI impI)
  assume "Record_init n = Inr r0"
  then show e: "phones r0 = []"
    by (auto simp: Record_init_def split: sum.splits)
  then have "list_all is_valid (phones (exec_ops r0 ops))"
    by (intro exec_ops_valid) simp
  then show "\<forall>p \<in> set (phones (exec_ops r0 ops)).
           length p = 10 \<and> (\<forall>c \<in> set p. char_isdigit c)
           \<and> ((\<forall>c \<in> set p. ord c < 128) \<longrightarrow> ten_decimal_digits p)"
    using ascii_isdigit by (auto simp: list_all_iff is_valid_iff ten_decimal_digits_def)
next
  assume "list_all is_valid (phones r)"
  then show "list_all is_valid (phones (exec_op r op))" by (rule exec_op_valid)
qed

theorem Record_phones_stay_valid_witness:
  "Record_init ''Bob'' = Inr \<lparr>name = ''Bob'', phones = [], birthday = None\<rparr>
   \<and> phones (exec_ops \<lparr>name = ''Bob'', phones = [], birthday = None\<rparr>
        [Add_phone ''1111111111'', Add_phone ''12ab'', Add_phone ''2222222222'',
         Edit_phone ''2222222222'' ''3333333333'', Edit_phone ''3333333333'' ''x'',
         Remove_phone ''1111111111'']) = [''3333333333'']
   \<and> list_all is_valid (phones (exec_ops \<lparr>name = ''Bob'', phones = [], birthday = None\<rparr>
        [Add_phone ''1111111111'', Add_phone ''12ab'', Add_phone ''2222222222'',
         Edit_phone ''2222222222'' ''3333333333'', Edit_phone ''3333333333'' ''x'',
         Remove_phone ''1111111111'']))"
proof -
  have h: "Record_init ''Bob'' = Inr \<lparr>name = ''Bob'', phones = [], birthday = None\<rparr>"
    by (simp add: Record_init_def Name_def)
  have v: "phones (exec_ops \<lparr>name = ''Bob'', phones = [], birthday = None\<rparr>
        [Add_phone ''1111111111'', Add_phone ''12ab'', Add_phone ''2222222222'',
         Edit_phone ''2222222222'' ''3333333333'', Edit_phone ''3333333333'' ''x'',
         Remove_phone ''1111111111'']) = [''3333333333'']"
    by (simp add: exec_ops_def add_phone_def Phone_def is_valid_def isdigit_def char_isdigit_def
        ord_def edit_phone_def edit_phone_from.simps remove_phone_def)
  have g: "list_all is_valid (phones (exec_ops \<lparr>name = ''Bob'', phones = [], birthday = None\<rparr> ops))"
    for ops
    using Record_phones_stay_valid [of "''Bob''" "\<lparr>name = ''Bob'', phones = [], birthday = None\<rparr>",
      THEN conjunct2, THEN conjunct2, rule_format, OF h, of _ ops]
    by (auto simp: list_all_iff is_valid_iff)
  show ?thesis
    using h v g by blast
qed

text \<open>
  Claim C10 as stated fails: \<^verbatim>\<open>add_phone\<close> on a new record stores ten superscript twos
  (U+00B2), which is not a string of ten decimal digits.
\<close>

theorem Record_superscript_counterexample:
  "Record_init ''Bob'' = Inr \<lparr>name = ''Bob'', phones = [], birthday = None\<rparr>
   \<and> phones (exec_ops \<lparr>name = ''Bob'', phones = [], birthday = None\<rparr>
        [Add_phone (replicate 10 (CHR 0xB2))]) = [replicate 10 (CHR 0xB2)]
   \<and> \<not> ten_decimal_digits (replicate 10 (CHR 0xB2))"
  by (simp add: Record_init_def Name_def exec_ops_def add_phone_def Phone_def is_valid_def
      isdigit_def char_isdigit_def ord_def ten_decimal_digits_def is_decimal_digit_def list_all_iff)

section \<open>Dates: validity and rendering\<close>

lemma month_cases:
  "1 \<le> m \<Longrightarrow> m \<le> 12 \<Longrightarrow>
   m = 1 \<or> m = 2 \<or> m = 3 \<or> m = 4 \<or> m = 5 \<or> m = 6 \<or> m = 7 \<or> m = 8 \<or> m = 9 \<or> m = 10
   \<or> m = 11 \<or> m = (12::int)"
  by arith

lemma days_in_month_bounds:
  assumes "1 \<le> m" and "m \<le> 12"
  shows "28 \<le> days_in_month y m \<and> days_in_month y m \<le> 31"
  using month_cases [OF assms]
  by (elim disjE) (simp_all add: days_in_month_def DAYS_IN_MONTH_def)

lemma days_in_month_other_year:
  assumes "1 \<le> m" and "m \<le> 12" and "m \<noteq> 2"
  shows "days_in_month y m = days_in_month y' m"
  using month_cases [OF assms(1,2)] assms(3)
  by (elim disjE) (simp_all add: days_in_month_def DAYS_IN_MONTH_def)

lemma days_in_february: "days_in_month y 2 = (if is_leap y then 29 else 28)"
  by (simp add: days_in_month_def DAYS_IN_MONTH_def)

lemma date_new_Inr_iff:
  "date_new y m d = Inr dt \<longleftrightarrow> valid_date \<lparr>year = y, month = m, day = d\<rparr> \<and> dt = \<lparr>year = y, month = m, day = d\<rparr>"
  by (auto simp: date_new_def valid_date_def)

lemma date_new_error:
  "\<not> valid_date \<lparr>year = y, month = m, day = d\<rparr> \<Longrightarrow> \<exists>msg. date_new y m d = Inl (ValueError msg)"
  by (auto simp: date_new_def valid_date_def)




lemma char_of_48: "char_of (48::nat) = CHR ''0''"
  by code_simp



lemma str_nat_1: "n < 10 \<Longrightarrow> str_nat n = [char_of (48 + n)]"
  by (simp add: str_nat.simps [of n])

lemma str_nat_2: "10 \<le> n \<Longrightarrow> n < 100 \<Longrightarrow> str_nat n = [char_of (48 + n div 10), char_of (48 + n mod 10)]"
  by (simp add: str_nat.simps [of n] str_nat_1)

lemma str_nat_3:
  "100 \<le> n \<Longrightarrow> n < 1000 \<Longrightarrow>
   str_nat n = [char_of (48 + n div 100), char_of (48 + n div 10 mod 10), char_of (48 + n mod 10)]"
  by (simp add: str_nat.simps [of n] str_nat_2 div_mult2_eq [symmetric])

lemma str_nat_4:
  "1000 \<le> n \<Longrightarrow> n < 10000 \<Longrightarrow>
   str_nat n = [char_of (48 + n div 1000), char_of (48 + n div 100 mod 10),
                char_of (48 + n div 10 mod 10), char_of (48 + n mod 10)]"
  by (simp add: str_nat.simps [of n] str_nat_3 div_mult2_eq [symmetric])

lemma zfill2_digits:
  "0 \<le> i \<Longrightarrow> i < 100 \<Longrightarrow>
   zfill2 i = [char_of (48 + nat i div 10), char_of (48 + nat i mod 10)]"
  by (cases "nat i < 10") (simp_all add: zfill2_def str_int_def str_nat_1 str_nat_2 char_of_48)


section \<open>Upcoming birthdays\<close>




text \<open>
  The occurrences exist whenever the birthdays are dates other than 29 February and
  today lies before the last year of the calendar.
\<close>

lemma occurrences_exist_sufficient:
  assumes "\<forall>r \<in> set (values_of book). \<forall>b. birthday r = Some b \<longrightarrow>
             valid_date b \<and> \<not> (month b = 2 \<and> day b = 29)"
    and "valid_date today" and "year today < MAXYEAR"
  shows "occurrences_exist book today"
proof -
  have v: "valid_date (b\<lparr>year := y\<rparr>)"
    if "valid_date b" "\<not> (month b = 2 \<and> day b = 29)" "MINYEAR \<le> y" "y \<le> MAXYEAR" for b y
  proof (cases "month b = 2")
    case True
    with that have "day b \<le> 28"
      by (auto simp: valid_date_def days_in_february split: if_splits)
    with that True show ?thesis
      by (auto simp: valid_date_def days_in_february)
  next
    case False
    with that days_in_month_other_year [of "month b" y "year b"] show ?thesis
      by (auto simp: valid_date_def)
  qed
  have y: "MINYEAR \<le> year today" "year today \<le> MAXYEAR" "MINYEAR \<le> year today + 1"
    "year today + 1 \<le> MAXYEAR"
    using assms(2,3) by (auto simp: valid_date_def MINYEAR_def)
  show ?thesis
    unfolding occurrences_exist_def
  proof
    fix r assume r: "r \<in> set (values_of book)"
    show "case birthday r of None \<Rightarrow> True
          | Some b \<Rightarrow> valid_date (this_year today b) \<and> valid_date (occurrence today b)"
    proof (cases "birthday r")
      case None
      then show ?thesis by simp
    next
      case (Some b)
      with assms(1) r have b: "valid_date b" "\<not> (month b = 2 \<and> day b = 29)" by auto
      show ?thesis
        using Some v [OF b y(1,2)] v [OF b y(3,4)]
        by (simp add: this_year_def occurrence_def)
    qed
  qed
qed



text \<open>
  A birthday on 29 February in a book makes the query raise in every year that is not a
  leap year, whatever else the book holds.
\<close>

lemma feb29_always_raises:
  assumes "r \<in> set (values_of book)" and "birthday r = Some b" and "month b = 2" and "day b = 29"
    and "\<not> is_leap (year today)"
  shows "\<exists>e. get_upcoming_birthdays book today days = Inl e"
proof -
  have f: "\<exists>e. replace_year b (year today) = Inl e"
    using assms(3-5) by (simp add: replace_year_def date_new_def days_in_february)
  have "\<exists>e. upcoming_loop today days rs acc = Inl e" if "r \<in> set rs" for rs acc
    using that
  proof (induction rs arbitrary: acc)
    case Nil
    then show ?case by simp
  next
    case (Cons x rs)
    show ?case
    proof (cases "x = r")
      case True
      with f assms(2) show ?thesis by auto
    next
      case False
      with Cons have "\<And>acc. \<exists>e. upcoming_loop today days rs acc = Inl e" by simp
      then show ?thesis
        by (auto split: option.splits sum.splits)
    qed
  qed
  with assms(1) show ?thesis by (simp add: get_upcoming_birthdays_def)
qed

text \<open>
  Claim C2 does not hold of the program. The birthday 29.02.2000 is accepted, and with
  today = 2023-02-27 the query does not return: \<^verbatim>\<open>replace(year=2023)\<close> raises
  \<^verbatim>\<open>ValueError\<close>, which nothing in the method catches.
\<close>

theorem feb29_non_leap_year_raises:
  "Birthday ''29.02.2000'' = Inr \<lparr>year = 2000, month = 2, day = 29\<rparr>
   \<and> get_upcoming_birthdays
        [(''Ann'', \<lparr>name = ''Ann'', phones = [], birthday = Some \<lparr>year = 2000, month = 2, day = 29\<rparr>\<rparr>)]
        \<lparr>year = 2023, month = 2, day = 27\<rparr> 7
      = Inl (ValueError ''day is out of range for month'')"
  by code_simp

section \<open>Parsing a birthday\<close>

text \<open>Characters by their code points, and the numbers that texts of digits denote.\<close>

lemma ord_eq_iff: "ord a = ord b \<longleftrightarrow> a = b"
  by (simp add: ord_def)

lemma ord_consts:
  "ord CHR ''0'' = 48" "ord CHR ''1'' = 49" "ord CHR ''2'' = 50" "ord CHR ''3'' = 51"
  "ord CHR ''9'' = 57" "ord CHR ''.'' = 46" "ord CHR '' '' = 32"
  by (simp_all add: ord_def)

lemma char_eq_consts:
  "a = CHR ''0'' \<longleftrightarrow> ord a = 48" "a = CHR ''1'' \<longleftrightarrow> ord a = 49" "a = CHR ''3'' \<longleftrightarrow> ord a = 51"
  "a = CHR ''.'' \<longleftrightarrow> ord a = 46" "a = CHR '' '' \<longleftrightarrow> ord a = 32"
  by (simp_all add: ord_eq_iff [symmetric] ord_consts)

lemma digit_not_space: "is_decimal_digit a \<Longrightarrow> \<not> isspace a"
  by (auto simp: is_decimal_digit_def isspace_def)

lemma digit_not_blank: "is_decimal_digit a \<Longrightarrow> a \<noteq> CHR '' ''"
  by (auto simp: is_decimal_digit_def char_eq_consts)

lemma digit_not_dot: "is_decimal_digit a \<Longrightarrow> a \<noteq> CHR ''.''"
  by (auto simp: is_decimal_digit_def char_eq_consts)

lemma isspace_blank: "isspace CHR '' ''"
  by (simp add: isspace_def ord_consts)

lemma two_chars_mem:
  "(t, rest) \<in> set (two_chars P Q s) \<longleftrightarrow> (\<exists>a b. t = [a, b] \<and> s = a # b # rest \<and> P a \<and> Q b)"
  by (auto simp: two_chars_def split: list.splits)

lemma one_char_mem:
  "(t, rest) \<in> set (one_char P s) \<longleftrightarrow> (\<exists>a. t = [a] \<and> s = a # rest \<and> P a)"
  by (auto simp: one_char_def split: list.splits)

lemma dot_mem: "rest \<in> set (dot s) \<longleftrightarrow> s = CHR ''.'' # rest"
  by (auto simp: dot_def split: list.splits)

lemma group_Y_mem: "(t, rest) \<in> set (group_Y s) \<longleftrightarrow> s = t @ rest \<and> year_text t"
  by (auto simp: group_Y_def year_text_def length_Suc_conv numeral_eq_Suc split: list.splits)

lemma number_of_1: "is_decimal_digit a \<Longrightarrow> number_of [a] = int (ord a) - 48"
  by (simp add: number_of_def decimal_value_def digit_not_blank)

lemma number_of_2:
  "is_decimal_digit a \<Longrightarrow> is_decimal_digit b \<Longrightarrow>
   number_of [a, b] = 10 * (int (ord a) - 48) + (int (ord b) - 48)"
  by (simp add: number_of_def decimal_value_def digit_not_blank)

lemma number_of_blank:
  "is_decimal_digit b \<Longrightarrow> number_of [CHR '' '', b] = int (ord b) - 48"
  by (simp add: number_of_def decimal_value_def digit_not_blank)

lemma number_of_4:
  "is_decimal_digit a \<Longrightarrow> is_decimal_digit b \<Longrightarrow> is_decimal_digit c \<Longrightarrow> is_decimal_digit d \<Longrightarrow>
   number_of [a, b, c, d] = 1000 * (int (ord a) - 48) + 100 * (int (ord b) - 48)
      + 10 * (int (ord c) - 48) + (int (ord d) - 48)"
  by (simp add: number_of_def decimal_value_def digit_not_blank)

lemma group_d_mem:
  "(t, rest) \<in> set (group_d s) \<longleftrightarrow>
     s = t @ rest \<and> day_text t \<and> 1 \<le> number_of t \<and> number_of t \<le> 31"
  (is "?L \<longleftrightarrow> ?R")
proof
  assume ?L
  then show ?R
    unfolding group_d_def set_append Un_iff two_chars_mem one_char_mem
    by (elim disjE exE conjE)
      (auto simp: day_text_def between_def ord_consts char_eq_consts is_decimal_digit_def
        number_of_1 number_of_2 number_of_blank)
next
  assume r: ?R
  then consider (one) a where "t = [a]" "is_decimal_digit a"
    | (two) a b where "t = [a, b]" "is_decimal_digit a" "is_decimal_digit b"
    | (blank) b where "t = [CHR '' '', b]" "is_decimal_digit b"
    by (auto simp: day_text_def split: list.splits)
  then show ?L
  proof cases
    case one
    with r show ?thesis
      unfolding group_d_def set_append Un_iff two_chars_mem one_char_mem
      by (auto simp: between_def ord_consts number_of_1 is_decimal_digit_def)
  next
    case two
    with r have "1 \<le> 10 * (int (ord a) - 48) + (int (ord b) - 48)"
      "10 * (int (ord a) - 48) + (int (ord b) - 48) \<le> 31"
      by (simp_all add: number_of_2)
    with two show ?thesis
      using r
      unfolding group_d_def set_append Un_iff two_chars_mem one_char_mem
      by (auto simp: between_def ord_consts char_eq_consts is_decimal_digit_def)
  next
    case blank
    with r show ?thesis
      unfolding group_d_def set_append Un_iff two_chars_mem one_char_mem
      by (auto simp: between_def ord_consts number_of_blank is_decimal_digit_def)
  qed
qed

text \<open>What the groups of the expression match, in the words of the specification.\<close>

lemma group_m_mem:
  "(t, rest) \<in> set (group_m s) \<longleftrightarrow>
     s = t @ rest \<and> month_text t \<and> 1 \<le> number_of t \<and> number_of t \<le> 12"
  (is "?L \<longleftrightarrow> ?R")
proof
  assume ?L
  then show ?R
    unfolding group_m_def set_append Un_iff two_chars_mem one_char_mem
    by (elim disjE exE conjE)
      (auto simp: month_text_def between_def ord_consts char_eq_consts is_decimal_digit_def
        number_of_1 number_of_2)
next
  assume r: ?R
  then consider (one) a where "t = [a]" "is_decimal_digit a"
    | (two) a b where "t = [a, b]" "is_decimal_digit a" "is_decimal_digit b"
    by (auto simp: month_text_def split: list.splits)
  then show ?L
  proof cases
    case one
    with r show ?thesis
      unfolding group_m_def set_append Un_iff two_chars_mem one_char_mem
      by (auto simp: between_def ord_consts number_of_1 is_decimal_digit_def)
  next
    case two
    with r have "1 \<le> 10 * (int (ord a) - 48) + (int (ord b) - 48)"
      "10 * (int (ord a) - 48) + (int (ord b) - 48) \<le> 12"
      by (simp_all add: number_of_2)
    with two show ?thesis
      using r
      unfolding group_m_def set_append Un_iff two_chars_mem one_char_mem
      by (auto simp: between_def ord_consts char_eq_consts is_decimal_digit_def)
  qed
qed

lemma concat_map_mem: "x \<in> set (concat (map f xs)) \<longleftrightarrow> (\<exists>a. a \<in> set xs \<and> x \<in> set (f a))"
  by auto

lemma map_mem: "x \<in> set (map f xs) \<longleftrightarrow> (\<exists>a. a \<in> set xs \<and> x = f a)"
  by auto

lemma format_regex_mem_raw:
  "(d, m, y, rest) \<in> set (format_regex s) \<longleftrightarrow>
      (\<exists>r1 r2 r3 r4. (d, r1) \<in> set (group_d s) \<and> r2 \<in> set (dot r1) \<and> (m, r3) \<in> set (group_m r2)
         \<and> r4 \<in> set (dot r3) \<and> (y, rest) \<in> set (group_Y r4))"
  unfolding format_regex_def
  apply (simp only: concat_map_mem map_mem split_paired_Ex case_prod_conv prod.inject)
  apply blast
  done

lemma format_regex_mem:
  "(d, m, y, rest) \<in> set (format_regex s) \<longleftrightarrow>
     s = d @ ''.'' @ m @ ''.'' @ y @ rest
     \<and> day_text d \<and> 1 \<le> number_of d \<and> number_of d \<le> 31
     \<and> month_text m \<and> 1 \<le> number_of m \<and> number_of m \<le> 12
     \<and> year_text y"
  unfolding format_regex_mem_raw group_d_mem dot_mem group_m_mem group_Y_mem
  by auto

text \<open>The text has at most one match, so the first match is the match.\<close>

lemma dot_not_digit: "\<not> is_decimal_digit CHR ''.''"
  by (simp add: is_decimal_digit_def ord_consts)

lemma day_text_no_dot: "day_text t \<Longrightarrow> CHR ''.'' \<notin> set t"
  by (auto simp: day_text_def dot_not_digit split: list.splits)

lemma month_text_no_dot: "month_text t \<Longrightarrow> CHR ''.'' \<notin> set t"
  by (auto simp: month_text_def dot_not_digit split: list.splits)

lemma first_separator:
  "c \<notin> set a \<Longrightarrow> c \<notin> set a' \<Longrightarrow> a @ c # b = a' @ c # b' \<Longrightarrow> a = a' \<and> b = b'"
proof (induction a arbitrary: a')
  case Nil
  then show ?case by (cases a') auto
next
  case (Cons x a)
  then show ?case by (cases a') auto
qed

lemma split_unique:
  assumes "d @ ''.'' @ m @ ''.'' @ y @ r = d' @ ''.'' @ m' @ ''.'' @ y' @ r'"
    and "CHR ''.'' \<notin> set d" "CHR ''.'' \<notin> set d'" "CHR ''.'' \<notin> set m" "CHR ''.'' \<notin> set m'"
    and "length y = length y'"
  shows "d = d' \<and> m = m' \<and> y = y' \<and> r = r'"
proof -
  have e: "d @ CHR ''.'' # (m @ CHR ''.'' # y @ r) = d' @ CHR ''.'' # (m' @ CHR ''.'' # y' @ r')"
    using assms(1) by simp
  have 1: "d = d' \<and> m @ CHR ''.'' # y @ r = m' @ CHR ''.'' # y' @ r'"
    using first_separator [OF assms(2) assms(3) e] .
  then have 2: "m = m' \<and> y @ r = y' @ r'"
    using first_separator [OF assms(4) assms(5)] by blast
  with 1 assms(6) show ?thesis by simp
qed

lemma format_regex_unique:
  assumes "x \<in> set (format_regex s)" and "x' \<in> set (format_regex s)"
  shows "x = x'"
proof -
  obtain d m y r where x: "x = (d, m, y, r)" by (cases x) auto
  obtain d' m' y' r' where x': "x' = (d', m', y', r')" by (cases x') auto
  from assms x x' have a: "s = d @ ''.'' @ m @ ''.'' @ y @ r" "day_text d" "month_text m" "year_text y"
    and b: "s = d' @ ''.'' @ m' @ ''.'' @ y' @ r'" "day_text d'" "month_text m'" "year_text y'"
    by (simp_all add: format_regex_mem)
  have "d = d' \<and> m = m' \<and> y = y' \<and> r = r'"
  proof (rule split_unique)
    show "d @ ''.'' @ m @ ''.'' @ y @ r = d' @ ''.'' @ m' @ ''.'' @ y' @ r'"
      using a(1) b(1) by simp
    show "length y = length y'" using a(4) b(4) by (simp add: year_text_def)
  qed (use a b in \<open>simp_all add: day_text_no_dot month_text_no_dot\<close>)
  with x x' show ?thesis by simp
qed

lemma format_regex_head:
  "x \<in> set (format_regex s) \<Longrightarrow> \<exists>xs. format_regex s = x # xs"
proof -
  assume a: "x \<in> set (format_regex s)"
  then obtain h xs where h: "format_regex s = h # xs" by (cases "format_regex s") auto
  then have "h \<in> set (format_regex s)" by simp
  then have "h = x" using a by (rule format_regex_unique)
  with h show ?thesis by simp
qed

lemma py_int_day: "day_text t \<Longrightarrow> py_int t = Inr (number_of t)"
  by (auto simp: day_text_def py_int_def strip_def number_of_def digit_not_space digit_not_blank
      isspace_blank Let_def split: list.splits)

lemma py_int_month: "month_text t \<Longrightarrow> py_int t = Inr (number_of t)"
  by (auto simp: month_text_def py_int_def strip_def number_of_def digit_not_space digit_not_blank
      Let_def split: list.splits)

lemma year_text_4:
  "year_text t \<longleftrightarrow> (\<exists>a b c d. t = [a, b, c, d] \<and> is_decimal_digit a \<and> is_decimal_digit b
      \<and> is_decimal_digit c \<and> is_decimal_digit d)"
  by (auto simp: year_text_def length_Suc_conv numeral_eq_Suc)

lemma py_int_year: "year_text t \<Longrightarrow> py_int t = Inr (number_of t)"
  by (auto simp: year_text_4 py_int_def strip_def number_of_def digit_not_space digit_not_blank
      Let_def)

lemma valid_date_ranges:
  assumes "valid_date d"
  shows "1 \<le> day d \<and> day d \<le> 31 \<and> 1 \<le> month d \<and> month d \<le> 12"
  using assms days_in_month_bounds [of "month d" "year d"] by (simp add: valid_date_def)

lemma strptime_accepts:
  assumes "day_text D" and "month_text M" and "year_text Y" and "valid_date (denoted D M Y)"
  shows "strptime (D @ ''.'' @ M @ ''.'' @ Y) = Inr (denoted D M Y)"
proof -
  have r: "1 \<le> number_of D" "number_of D \<le> 31" "1 \<le> number_of M" "number_of M \<le> 12"
    using valid_date_ranges [OF assms(4)] by (simp_all add: denoted_def)
  have "(D, M, Y, []) \<in> set (format_regex (D @ ''.'' @ M @ ''.'' @ Y))"
    using assms(1-3) r by (simp add: format_regex_mem)
  then obtain xs where "format_regex (D @ ''.'' @ M @ ''.'' @ Y) = (D, M, Y, []) # xs"
    using format_regex_head by blast
  moreover have "date_new (number_of Y) (number_of M) (number_of D) = Inr (denoted D M Y)"
    using assms(4) by (simp add: date_new_Inr_iff denoted_def)
  ultimately show ?thesis
    using assms(1-3) by (simp add: strptime_def py_int_day py_int_month py_int_year)
qed



lemma py_int_outcomes: "(\<exists>v. py_int t = Inr v) \<or> (\<exists>msg. py_int t = Inl (ValueError msg))"
  by (simp add: py_int_def Let_def)

lemma date_new_outcomes: "(\<exists>v. date_new y m d = Inr v) \<or> (\<exists>msg. date_new y m d = Inl (ValueError msg))"
  by (simp add: date_new_def)

lemma strptime_outcomes: "(\<exists>dt. strptime s = Inr dt) \<or> (\<exists>msg. strptime s = Inl (ValueError msg))"
proof (cases "format_regex s")
  case Nil
  then show ?thesis by (simp add: strptime_def)
next
  case (Cons x xs)
  obtain d m y rest where x: "x = (d, m, y, rest)" by (cases x) auto
  show ?thesis
    using Cons x py_int_outcomes [of y] py_int_outcomes [of m] py_int_outcomes [of d]
    by (auto simp: strptime_def) (metis date_new_outcomes)
qed

lemma Birthday_outcomes:
  "Birthday s = (case strptime s of Inr dt \<Rightarrow> Inr dt
                 | Inl e \<Rightarrow> Inl (ValueError ''Invalid date format. Use DD.MM.YYYY''))"
  using strptime_outcomes [of s] by (auto simp: Birthday_def)

lemma digit_obtain:
  assumes "is_decimal_digit a"
  obtains k where "k < 10" "ord a = 48 + k" "a = char_of (48 + k)"
proof -
  from assms have "ord a - 48 < 10" "ord a = 48 + (ord a - 48)"
    by (auto simp: is_decimal_digit_def)
  moreover have "a = char_of (48 + (ord a - 48))"
    using assms by (simp add: is_decimal_digit_def ord_def)
  ultimately show ?thesis using that by blast
qed

lemma two_digits_render:
  assumes "is_decimal_digit a" and "is_decimal_digit b"
  shows "zfill2 (number_of [a, b]) = [a, b]"
proof -
  from assms(1) obtain ka where a: "ka < 10" "ord a = 48 + ka" "a = char_of (48 + ka)"
    by (rule digit_obtain)
  from assms(2) obtain kb where b: "kb < 10" "ord b = 48 + kb" "b = char_of (48 + kb)"
    by (rule digit_obtain)
  have n: "number_of [a, b] = int (10 * ka + kb)"
    using assms a(2) b(2) by (simp add: number_of_2)
  have dg: "(10 * ka + kb) div 10 = ka" "(10 * ka + kb) mod 10 = kb"
    using b(1) by simp_all
  have "zfill2 (int (10 * ka + kb))
      = [char_of (48 + nat (int (10 * ka + kb)) div 10), char_of (48 + nat (int (10 * ka + kb)) mod 10)]"
    using a(1) b(1) by (intro zfill2_digits) simp_all
  then have "zfill2 (int (10 * ka + kb)) = [char_of (48 + ka), char_of (48 + kb)]"
    unfolding nat_int dg .
  with a(3) b(3) n show ?thesis by simp
qed

lemma four_digits_render:
  assumes "is_decimal_digit a" and "is_decimal_digit b" and "is_decimal_digit c" and "is_decimal_digit d"
    and "1000 \<le> number_of [a, b, c, d]"
  shows "str_int (number_of [a, b, c, d]) = [a, b, c, d]"
proof -
  from assms(1) obtain ka where a: "ka < 10" "ord a = 48 + ka" "a = char_of (48 + ka)"
    by (rule digit_obtain)
  from assms(2) obtain kb where b: "kb < 10" "ord b = 48 + kb" "b = char_of (48 + kb)"
    by (rule digit_obtain)
  from assms(3) obtain kc where c: "kc < 10" "ord c = 48 + kc" "c = char_of (48 + kc)"
    by (rule digit_obtain)
  from assms(4) obtain kd where d: "kd < 10" "ord d = 48 + kd" "d = char_of (48 + kd)"
    by (rule digit_obtain)
  define n where "n = 1000 * ka + 100 * kb + 10 * kc + kd"
  have v: "number_of [a, b, c, d] = int n"
    using assms(1-4) a(2) b(2) c(2) d(2) by (simp add: number_of_4 n_def)
  with assms(5) have lo: "1000 \<le> n" by simp
  have hi: "n < 10000" using a(1) b(1) c(1) d(1) by (simp add: n_def)
  have d1: "n div 1000 = ka"
  proof -
    have "n = 1000 * ka + (100 * kb + 10 * kc + kd)" "100 * kb + 10 * kc + kd < 1000"
      using b(1) c(1) d(1) by (simp_all add: n_def)
    then show ?thesis by simp
  qed
  have d2: "n div 100 mod 10 = kb"
  proof -
    have "n = 100 * (10 * ka + kb) + (10 * kc + kd)" "10 * kc + kd < 100"
      using c(1) d(1) by (simp_all add: n_def)
    then have "n div 100 = 10 * ka + kb" by simp
    with b(1) show ?thesis by simp
  qed
  have d3: "n div 10 mod 10 = kc"
  proof -
    define q where "q = 10 * ka + kb"
    have "n = 10 * (10 * q + kc) + kd"
      by (simp add: n_def q_def)
    with d(1) have "n div 10 = 10 * q + kc" by simp
    moreover have "(10 * q + kc) mod 10 = kc" using c(1) by simp
    ultimately show ?thesis by simp
  qed
  have d4: "n mod 10 = kd"
  proof -
    define q where "q = 10 * (10 * ka + kb) + kc"
    have "n = 10 * q + kd"
      by (simp add: n_def q_def)
    moreover have "(10 * q + kd) mod 10 = kd" using d(1) by simp
    ultimately show ?thesis by simp
  qed
  note dg = d1 d2 d3 d4
  have "str_int (int n) = str_nat n" by (simp add: str_int_def)
  also have "\<dots> = [char_of (48 + n div 1000), char_of (48 + n div 100 mod 10),
                char_of (48 + n div 10 mod 10), char_of (48 + n mod 10)]"
    using lo hi by (rule str_nat_4)
  finally show ?thesis using v dg a(3) b(3) c(3) d(3) by simp
qed

lemma str_nat_short: "n < 1000 \<Longrightarrow> length (str_nat n) < 4"
proof -
  assume "n < 1000"
  then consider "n < 10" | "10 \<le> n" "n < 100" | "100 \<le> n" "n < 1000" by linarith
  then show ?thesis
    by cases (simp_all add: str_nat_1 str_nat_2 str_nat_3)
qed

lemma Birthday_str_parts:
  "Birthday_str d = zfill2 (day d) @ ''.'' @ zfill2 (month d) @ ''.'' @ str_int (year d)"
  by (simp add: Birthday_str_def directive_def)




section \<open>Parsing and rendering a birthday\<close>

text \<open>
  Claim C5, as the program has it. A text of the strict shape DD.MM.YYYY that denotes a
  date of the calendar is accepted, with that date as the value. Rendering gives the
  text back when the year is at least 1000; for an earlier year the rendered year has
  lost its leading zeros and the rendered text is shorter than the text parsed.
\<close>

theorem Birthday_round_trip:
  assumes "matches_DD_MM_YYYY s" and "valid_date (date_of_text s)"
  shows "Birthday s = Inr (date_of_text s)
     \<and> (1000 \<le> year (date_of_text s) \<longrightarrow> Birthday_str (date_of_text s) = s)
     \<and> (year (date_of_text s) < 1000 \<longrightarrow> length (Birthday_str (date_of_text s)) < length s)"
proof -
  from assms(1) obtain a b c d e f g h where s: "s = [a, b, CHR ''.'', c, d, CHR ''.'', e, f, g, h]"
    and dg: "is_decimal_digit a" "is_decimal_digit b" "is_decimal_digit c" "is_decimal_digit d"
      "is_decimal_digit e" "is_decimal_digit f" "is_decimal_digit g" "is_decimal_digit h"
    by (auto simp: matches_DD_MM_YYYY_def split: list.splits)
  have t: "date_of_text s = denoted [a, b] [c, d] [e, f, g, h]"
    by (simp add: s date_of_text_def)
  have sh: "day_text [a, b]" "month_text [c, d]" "year_text [e, f, g, h]"
    using dg by (simp_all add: day_text_def month_text_def year_text_def)
  have "strptime ([a, b] @ ''.'' @ [c, d] @ ''.'' @ [e, f, g, h]) = Inr (denoted [a, b] [c, d] [e, f, g, h])"
    using sh assms(2) unfolding t by (rule strptime_accepts)
  moreover have "[a, b] @ ''.'' @ [c, d] @ ''.'' @ [e, f, g, h] = s"
    by (simp add: s)
  ultimately have "strptime s = Inr (date_of_text s)"
    by (simp only: t)
  then have p: "Birthday s = Inr (date_of_text s)"
    by (simp add: Birthday_outcomes)
  have dd: "zfill2 (day (date_of_text s)) = [a, b]" "zfill2 (month (date_of_text s)) = [c, d]"
    using dg by (simp_all add: t denoted_def two_digits_render)
  have r: "Birthday_str (date_of_text s) = [a, b] @ ''.'' @ [c, d] @ ''.'' @ str_int (year (date_of_text s))"
    by (simp add: Birthday_str_parts dd)
  have y1: "str_int (year (date_of_text s)) = [e, f, g, h]" if "1000 \<le> year (date_of_text s)"
    using that dg by (simp add: t denoted_def four_digits_render)
  have y2: "length (str_int (year (date_of_text s))) < 4" if "year (date_of_text s) < 1000"
  proof -
    have "0 \<le> year (date_of_text s)" using assms(2) by (simp add: valid_date_def MINYEAR_def)
    with that have "nat (year (date_of_text s)) < 1000" by simp
    then have "length (str_nat (nat (year (date_of_text s)))) < 4" by (rule str_nat_short)
    with \<open>0 \<le> year (date_of_text s)\<close> show ?thesis by (simp add: str_int_def)
  qed
  show ?thesis
    using p r y1 y2 by (auto simp: s)
qed

theorem Birthday_round_trip_witness:
  "matches_DD_MM_YYYY ''29.02.2024'' \<and> valid_date (date_of_text ''29.02.2024'')
   \<and> Birthday ''29.02.2024'' = Inr \<lparr>year = 2024, month = 2, day = 29\<rparr>
   \<and> Birthday_str \<lparr>year = 2024, month = 2, day = 29\<rparr> = ''29.02.2024''"
proof -
  have h: "matches_DD_MM_YYYY ''29.02.2024''" "valid_date (date_of_text ''29.02.2024'')"
    by code_simp+
  have d: "date_of_text ''29.02.2024'' = \<lparr>year = 2024, month = 2, day = 29\<rparr>"
    by code_simp
  show ?thesis
    using h Birthday_round_trip [OF h] unfolding d by simp
qed

text \<open>
  Claim C5 as stated fails: \<^verbatim>\<open>01.01.0999\<close> has the strict shape and denotes a date of the
  calendar, it is accepted, and it is rendered as \<^verbatim>\<open>01.01.999\<close>.
\<close>

theorem Birthday_year_below_1000_counterexample:
  "matches_DD_MM_YYYY ''01.01.0999'' \<and> valid_date (date_of_text ''01.01.0999'')
   \<and> Birthday ''01.01.0999'' = Inr \<lparr>year = 999, month = 1, day = 1\<rparr>
   \<and> Birthday_str \<lparr>year = 999, month = 1, day = 1\<rparr> = ''01.01.999''"
  by code_simp

end
